theory Spec2Isabelle
  imports Main "HOL-Library.Word"
begin

section \<open>Qt strings: \<open>QString::arg\<close> and \<open>QStringList::join\<close>\<close>

text \<open>
  \<open>utils.cpp\<close> builds its SQL text with \<open>QString("...%1...%2...").arg(a).arg(b)\<close> and
  \<open>QStringList::join\<close>. A \<open>QString\<close> is modelled as a \<open>string\<close>. \<open>QString::arg\<close> replaces
  every occurrence of the lowest-numbered place marker; a place marker is \<open>%\<close>, an optional
  \<open>L\<close>, and one or two decimal digits. When the string holds no marker it is returned as it
  is.
\<close>

type_synonym cint = "32 word"   \<comment> \<open>C++ \<open>int\<close>: 32 bits, read with \<open>sint\<close>\<close>
type_synonym cuint = "32 word"  \<comment> \<open>C++ \<open>uint\<close>: 32 bits, read with \<open>uint\<close>\<close>

definition isDigit :: "char \<Rightarrow> bool" where
  "isDigit c = (48 \<le> (of_char c :: nat) \<and> (of_char c :: nat) \<le> 57)"

definition digitValue :: "char \<Rightarrow> nat" where
  "digitValue c = (of_char c :: nat) - 48"

datatype argtoken = Plain char | Marker nat string

definition argMarker :: "string \<Rightarrow> (nat \<times> nat) option" where
  "argMarker cs =
     (let k = (case cs of [] \<Rightarrow> 0 | x # _ \<Rightarrow> if x = CHR ''L'' then 1 else (0::nat))
      in case drop k cs of
           [] \<Rightarrow> None
         | d1 # r1 \<Rightarrow>
             if \<not> isDigit d1 then None
             else (case r1 of
                     [] \<Rightarrow> Some (digitValue d1, k + 1)
                   | d2 # _ \<Rightarrow>
                       if isDigit d2
                       then Some (10 * digitValue d1 + digitValue d2, k + 2)
                       else Some (digitValue d1, k + 1)))"

function argTokens :: "string \<Rightarrow> argtoken list" where
  "argTokens [] = []"
| "argTokens (c # cs) =
     (if c = CHR ''%'' then
        (case argMarker cs of
           Some (n, k) \<Rightarrow> Marker n (c # take k cs) # argTokens (drop k cs)
         | None \<Rightarrow> Plain c # argTokens cs)
      else Plain c # argTokens cs)"
  by pat_completeness auto
termination
  by (relation "measure length") auto

fun markerNumbers :: "argtoken list \<Rightarrow> nat list" where
  "markerNumbers [] = []"
| "markerNumbers (Plain c # ts) = markerNumbers ts"
| "markerNumbers (Marker n src # ts) = n # markerNumbers ts"

fun argSubst :: "nat \<Rightarrow> string \<Rightarrow> argtoken \<Rightarrow> string" where
  "argSubst m a (Plain c) = [c]"
| "argSubst m a (Marker n src) = (if n = m then a else src)"

definition QString_arg :: "string \<Rightarrow> string \<Rightarrow> string" where
  "QString_arg s a =
     (case markerNumbers (argTokens s) of
        [] \<Rightarrow> s
      | n # ns \<Rightarrow> concat (map (argSubst (fold min ns n) a) (argTokens s)))"

fun join :: "string \<Rightarrow> string list \<Rightarrow> string" where
  "join sep [] = []"
| "join sep [x] = x"
| "join sep (x # y # ys) = x @ sep @ join sep (y # ys)"

fun indexOf :: "string list \<Rightarrow> string \<Rightarrow> int" where
  "indexOf [] x = -1"
| "indexOf (y # ys) x =
     (if y = x then 0 else (let i = indexOf ys x in if i < 0 then -1 else i + 1))"

section \<open>The database behind \<open>QSqlDatabase\<close>\<close>

text \<open>
  The SQLite engine is not part of the repository. It is modelled for the statements
  \<open>utils.cpp\<close> issues:
  \<^item> a database is its catalog of tables in creation order; a table has a name, the column
    list it was declared with, and rows of the shape the version table has (a text key and
    a value); the rows of other tables are not represented;
  \<^item> in SQL text a table name is a bare identifier, a back-quoted name or a name in square
    brackets; table names are compared without regard to ASCII case, as SQLite does;
  \<^item> \<open>WITHOUT ROWID\<close> needs a \<open>PRIMARY KEY\<close> in the column list;
  \<^item> a statement outside these shapes fails to prepare; a failed statement changes nothing.
\<close>

datatype sqlvalue = SqlNull | SqlInteger "64 word"

datatype sqlparam = ParamText string | ParamInt cint

record table =
  tname :: string
  tcolumns :: string
  trows :: "(string \<times> sqlvalue) list"

type_synonym database = "table list"

datatype stmt =
    CreateTable bool string string
  | DropTable string
  | SelectVersion
  | InsertVersion

definition lowerCode :: "char \<Rightarrow> nat" where
  "lowerCode c = (let k = (of_char c :: nat) in if 65 \<le> k \<and> k \<le> 90 then k + 32 else k)"

definition sameName :: "string \<Rightarrow> string \<Rightarrow> bool" where
  "sameName a b = (map lowerCode a = map lowerCode b)"

definition isLetter :: "char \<Rightarrow> bool" where
  "isLetter c = (97 \<le> lowerCode c \<and> lowerCode c \<le> 122)"

definition isIdentStart :: "char \<Rightarrow> bool" where
  "isIdentStart c = (isLetter c \<or> c = CHR ''_'')"

definition isIdentChar :: "char \<Rightarrow> bool" where
  "isIdentChar c = (isLetter c \<or> isDigit c \<or> c = CHR ''_'')"

fun stripPrefix :: "string \<Rightarrow> string \<Rightarrow> string option" where
  "stripPrefix [] ys = Some ys"
| "stripPrefix (x # xs) [] = None"
| "stripPrefix (x # xs) (y # ys) = (if x = y then stripPrefix xs ys else None)"

definition stripSuffix :: "string \<Rightarrow> string \<Rightarrow> string option" where
  "stripSuffix suf s = map_option rev (stripPrefix (rev suf) (rev s))"

fun containsText :: "string \<Rightarrow> string \<Rightarrow> bool" where
  "containsText pat [] = (pat = [])"
| "containsText pat (c # cs) = (stripPrefix pat (c # cs) \<noteq> None \<or> containsText pat cs)"

definition quotedName :: "char \<Rightarrow> string \<Rightarrow> (string \<times> string) option" where
  "quotedName close cs =
     (case dropWhile (\<lambda>x. x \<noteq> close) cs of
        [] \<Rightarrow> None
      | q # r \<Rightarrow>
          if takeWhile (\<lambda>x. x \<noteq> close) cs = [] then None
          else Some (takeWhile (\<lambda>x. x \<noteq> close) cs, r))"

definition parseName :: "string \<Rightarrow> (string \<times> string) option" where
  "parseName s =
     (case s of
        [] \<Rightarrow> None
      | c # cs \<Rightarrow>
          if c = CHR 0x60 then quotedName (CHR 0x60) cs
          else if c = CHR ''['' then quotedName (CHR '']'') cs
          else if isIdentStart c then
            Some (c # takeWhile isIdentChar cs, dropWhile isIdentChar cs)
          else None)"

definition parseCreate :: "bool \<Rightarrow> string \<Rightarrow> stmt option" where
  "parseCreate ifNotExists r =
     (case parseName r of
        None \<Rightarrow> None
      | Some (n, r1) \<Rightarrow>
          (case stripPrefix '' ('' r1 of
             None \<Rightarrow> None
           | Some r2 \<Rightarrow>
               (case stripSuffix '') WITHOUT ROWID;'' r2 of
                  None \<Rightarrow> None
                | Some cols \<Rightarrow> Some (CreateTable ifNotExists n cols))))"

definition parseDrop :: "string \<Rightarrow> stmt option" where
  "parseDrop r =
     (case parseName r of
        None \<Rightarrow> None
      | Some (n, r1) \<Rightarrow> if r1 = '';'' then Some (DropTable n) else None)"

definition parseSql :: "string \<Rightarrow> stmt option" where
  "parseSql sql =
     (if sql = ''SELECT version FROM TablesVersions WHERE tableName = :tableName;''
      then Some SelectVersion
      else if sql = ''INSERT OR REPLACE INTO TablesVersions (tableName, version) VALUES (:tableName, :version);''
      then Some InsertVersion
      else (case stripPrefix ''DROP TABLE '' sql of
              Some r \<Rightarrow> parseDrop r
            | None \<Rightarrow>
                (case stripPrefix ''CREATE TABLE IF NOT EXISTS '' sql of
                   Some r \<Rightarrow> parseCreate True r
                 | None \<Rightarrow>
                     (case stripPrefix ''CREATE TABLE '' sql of
                        Some r \<Rightarrow> parseCreate False r
                      | None \<Rightarrow> None))))"

definition hasTable :: "database \<Rightarrow> string \<Rightarrow> bool" where
  "hasTable d n = list_ex (\<lambda>t. sameName (tname t) n) d"

definition findTable :: "database \<Rightarrow> string \<Rightarrow> table option" where
  "findTable d n = find (\<lambda>t. sameName (tname t) n) d"

definition registryColumns :: string where
  "registryColumns = ''tableName TEXT PRIMARY KEY, version INTEGER''"

definition registryRows :: "database \<Rightarrow> (string \<times> sqlvalue) list option" where
  "registryRows d =
     (case findTable d ''TablesVersions'' of
        None \<Rightarrow> None
      | Some t \<Rightarrow> if tcolumns t = registryColumns then Some (trows t) else None)"

definition columnsOk :: "string \<Rightarrow> bool" where
  "columnsOk cols = containsText ''PRIMARY KEY'' cols"

fun compiles :: "database \<Rightarrow> stmt \<Rightarrow> bool" where
  "compiles d (CreateTable ifNotExists n cols) =
     (columnsOk cols \<and> (ifNotExists \<or> \<not> hasTable d n))"
| "compiles d (DropTable n) = hasTable d n"
| "compiles d SelectVersion = (registryRows d \<noteq> None)"
| "compiles d InsertVersion = (registryRows d \<noteq> None)"

definition sqlite_prepare :: "database \<Rightarrow> string \<Rightarrow> stmt option" where
  "sqlite_prepare d sql =
     (case parseSql sql of
        None \<Rightarrow> None
      | Some st \<Rightarrow> if compiles d st then Some st else None)"

definition upsertRow :: "string \<Rightarrow> sqlvalue \<Rightarrow> (string \<times> sqlvalue) list \<Rightarrow> (string \<times> sqlvalue) list" where
  "upsertRow k v rows = filter (\<lambda>r. fst r \<noteq> k) rows @ [(k, v)]"

definition updateRegistry :: "((string \<times> sqlvalue) list \<Rightarrow> (string \<times> sqlvalue) list) \<Rightarrow> database \<Rightarrow> database" where
  "updateRegistry f d =
     map (\<lambda>t. if sameName (tname t) ''TablesVersions'' then t\<lparr>trows := f (trows t)\<rparr> else t) d"

fun sqlite_exec :: "database \<Rightarrow> stmt \<Rightarrow> (string \<times> sqlparam) list \<Rightarrow> (database \<times> sqlvalue list) option" where
  "sqlite_exec d (CreateTable ifNotExists n cols) ps =
     (if ps \<noteq> [] then None
      else if hasTable d n then (if ifNotExists then Some (d, []) else None)
      else Some (d @ [\<lparr>tname = n, tcolumns = cols, trows = []\<rparr>], []))"
| "sqlite_exec d (DropTable n) ps =
     (if ps \<noteq> [] \<or> \<not> hasTable d n then None
      else Some (filter (\<lambda>t. \<not> sameName (tname t) n) d, []))"
| "sqlite_exec d SelectVersion ps =
     (case (ps, registryRows d) of
        ([(p, ParamText k)], Some rows) \<Rightarrow>
          if p = '':tableName'' then Some (d, map snd (filter (\<lambda>r. fst r = k) rows)) else None
      | _ \<Rightarrow> None)"
| "sqlite_exec d InsertVersion ps =
     (case (ps, registryRows d) of
        ([(p1, ParamText k), (p2, ParamInt v)], Some rows) \<Rightarrow>
          if p1 = '':tableName'' \<and> p2 = '':version''
          then Some (updateRegistry (upsertRow k (SqlInteger (scast v))) d, [])
          else None
      | _ \<Rightarrow> None)"

section \<open>\<open>QSqlQuery\<close>, \<open>QVariant\<close> and the message log\<close>

text \<open>
  The program's world is the database, the lines \<open>utils.cpp\<close> writes with \<open>qDebug()\<close>,
  \<open>qWarning()\<close> and \<open>qCritical()\<close> (Qt's own diagnostics are not part of it), and the
  statements handed to the engine, in order. A value read from a
  result row is a \<open>QVariant\<close>: the SQLite driver gives a null variant for \<open>NULL\<close> and a
  \<open>qlonglong\<close> for an integer; \<open>toUInt\<close> fails on the null variant and truncates a
  \<open>qlonglong\<close> to 32 bits without a range check.
\<close>

datatype event = Prepare string | Exec string "(string \<times> sqlparam) list"

datatype loglevel = Debug | Warning | Critical

datatype logitem = Lit string | QStr string

record world =
  db :: database
  log :: "(loglevel \<times> logitem list) list"
  trace :: "event list"

datatype qvariant = QInvalid | QNull | QLongLong "64 word"

fun variantOf :: "sqlvalue \<Rightarrow> qvariant" where
  "variantOf SqlNull = QNull"
| "variantOf (SqlInteger i) = QLongLong i"

fun isValid :: "qvariant \<Rightarrow> bool" where
  "isValid QInvalid = False"
| "isValid QNull = True"
| "isValid (QLongLong i) = True"

fun toUInt :: "qvariant \<Rightarrow> bool \<times> cuint" where
  "toUInt QInvalid = (False, 0)"
| "toUInt QNull = (False, 0)"
| "toUInt (QLongLong i) = (True, ucast i)"

definition qDebug :: "world \<Rightarrow> logitem list \<Rightarrow> world" where
  "qDebug w items = w\<lparr>log := log w @ [(Debug, items)]\<rparr>"

definition qWarning :: "world \<Rightarrow> logitem list \<Rightarrow> world" where
  "qWarning w items = w\<lparr>log := log w @ [(Warning, items)]\<rparr>"

definition qCritical :: "world \<Rightarrow> logitem list \<Rightarrow> world" where
  "qCritical w items = w\<lparr>log := log w @ [(Critical, items)]\<rparr>"

definition query_prepare :: "world \<Rightarrow> string \<Rightarrow> stmt option \<times> world" where
  "query_prepare w sql = (sqlite_prepare (db w) sql, w\<lparr>trace := trace w @ [Prepare sql]\<rparr>)"

definition query_exec :: "world \<Rightarrow> string \<Rightarrow> stmt \<Rightarrow> (string \<times> sqlparam) list \<Rightarrow> sqlvalue list option \<times> world" where
  "query_exec w sql st ps =
     (case sqlite_exec (db w) st ps of
        None \<Rightarrow> (None, w\<lparr>trace := trace w @ [Exec sql ps]\<rparr>)
      | Some (d, rows) \<Rightarrow> (Some rows, w\<lparr>db := d, trace := trace w @ [Exec sql ps]\<rparr>))"

section \<open>The functions of \<open>utils.cpp\<close>\<close>

definition VERSION_TABLE_NAME :: string where
  "VERSION_TABLE_NAME = ''TablesVersions''"

definition executeQuery :: "world \<Rightarrow> string \<Rightarrow> bool \<times> world" where
  "executeQuery w sql =
     (case query_prepare w sql of
        (None, w1) \<Rightarrow> (False, w1)
      | (Some st, w1) \<Rightarrow>
          (case query_exec w1 sql st [] of
             (None, w2) \<Rightarrow> (False, w2)
           | (Some rows, w2) \<Rightarrow> (True, w2)))"

text \<open>
  The part of \<open>openDdAndCheckTables\<close> that creates the version table once the file is
  open. Opening the file, the message boxes and the tables of other classes are outside this
  development.
\<close>

definition ensureVersionTable :: "world \<Rightarrow> bool \<times> world" where
  "ensureVersionTable w =
     (case executeQuery w
             (''CREATE TABLE IF NOT EXISTS '' @ VERSION_TABLE_NAME @
              '' (tableName TEXT PRIMARY KEY, version INTEGER) WITHOUT ROWID;'') of
        (False, w1) \<Rightarrow> (False, qCritical w1 [Lit ''Cannot create version table''])
      | (True, w1) \<Rightarrow> (True, w1))"

definition isTablePresent :: "world \<Rightarrow> string \<Rightarrow> bool" where
  "isTablePresent w tableName = (indexOf (map tname (db w)) tableName \<ge> 0)"

text \<open>
  \<open>createTableSql\<close> is the value of the local variable \<open>sql\<close> of \<open>createTable\<close>;
  \<open>versionNotFound\<close> is the common exit of \<open>getTableVersion\<close>: the warning and the
  result -1. In \<open>getTableVersion\<close> the \<open>uint\<close> that \<open>toUInt\<close> gives is assigned to the
  \<open>int\<close> \<open>retval\<close>: the 32 bits stay, read as two's complement from then on.
\<close>

definition createTableSql :: "string \<Rightarrow> (string \<times> string) list \<Rightarrow> string" where
  "createTableSql tableName tableDefinition =
     (let tmp = map (\<lambda>it. fst it @ '' '' @ snd it) tableDefinition
      in QString_arg (QString_arg ''CREATE TABLE `%1` (%2) WITHOUT ROWID;'' tableName)
           (join '', '' tmp))"

definition createTable :: "world \<Rightarrow> string \<Rightarrow> (string \<times> string) list \<Rightarrow> bool \<times> world" where
  "createTable w tableName tableDefinition =
     (let sql = createTableSql tableName tableDefinition;
          w1 = qDebug w [Lit ''Creating table'', QStr tableName, Lit '':'', QStr sql]
      in executeQuery w1 sql)"

definition dropTable :: "world \<Rightarrow> string \<Rightarrow> bool \<times> world" where
  "dropTable w tableName =
     (if \<not> isTablePresent w tableName then (True, w)
      else (case executeQuery w (''DROP TABLE '' @ tableName @ '';'') of
              (True, w1) \<Rightarrow> (True, w1)
            | (False, w1) \<Rightarrow> (False, qWarning w1 [Lit ''Cannot drop table'', QStr tableName])))"

definition versionNotFound :: "world \<Rightarrow> string \<Rightarrow> cint \<times> world" where
  "versionNotFound w tableName =
     (-1, qWarning w [Lit ''Cannot find version for table'', QStr tableName])"

definition getTableVersion :: "world \<Rightarrow> string \<Rightarrow> cint \<times> world" where
  "getTableVersion w tableName =
     (if \<not> isTablePresent w VERSION_TABLE_NAME then (-1, w)
      else if \<not> isTablePresent w tableName then (0, w)
      else (let sql = ''SELECT version FROM '' @ VERSION_TABLE_NAME @ '' WHERE tableName = :tableName;''
            in case query_prepare w sql of
                 (None, w1) \<Rightarrow> versionNotFound w1 tableName
               | (Some st, w1) \<Rightarrow>
                   (case query_exec w1 sql st [('':tableName'', ParamText tableName)] of
                      (None, w2) \<Rightarrow> versionNotFound w2 tableName
                    | (Some [], w2) \<Rightarrow> versionNotFound w2 tableName
                    | (Some (row # others), w2) \<Rightarrow>
                        (let version = variantOf row in
                         if isValid version then
                           (case toUInt version of
                              (True, retval) \<Rightarrow> (retval, w2)
                            | (False, retval) \<Rightarrow> versionNotFound w2 tableName)
                         else versionNotFound w2 tableName))))"

definition setTableVersion :: "world \<Rightarrow> string \<Rightarrow> cint \<Rightarrow> bool \<times> world" where
  "setTableVersion w tableName tableVersion =
     (if \<not> isTablePresent w VERSION_TABLE_NAME then (False, w)
      else if \<not> isTablePresent w tableName then (False, w)
      else (let sql = ''INSERT OR REPLACE INTO TablesVersions (tableName, version) VALUES (:tableName, :version);''
            in case query_prepare w sql of
                 (None, w1) \<Rightarrow>
                   (False, qWarning w1 [Lit ''Cannot save version for table'', QStr tableName])
               | (Some st, w1) \<Rightarrow>
                   (case query_exec w1 sql st
                           [('':tableName'', ParamText tableName), ('':version'', ParamInt tableVersion)] of
                      (Some rows, w2) \<Rightarrow> (True, w2)
                    | (None, w2) \<Rightarrow>
                        (False, qWarning w2 [Lit ''Cannot save version for table'', QStr tableName]))))"

section \<open>Notions the properties are stated with\<close>

text \<open>
  The identifier allow-list of the specification (its glossary: a rule restricting table and
  column names to a safe character set). \<open>utils.cpp\<close> has no such check; the predicate is
  used to state properties only. A name passes when it is a letter or an underscore followed by
  letters, digits and underscores.
\<close>

definition identifierOk :: "string \<Rightarrow> bool" where
  "identifierOk s = (case s of [] \<Rightarrow> False | c # cs \<Rightarrow> isIdentStart c \<and> list_all isIdentChar cs)"

definition designatesPrimaryKey :: "(string \<times> string) list \<Rightarrow> bool" where
  "designatesPrimaryKey tableDefinition =
     list_ex (\<lambda>it. containsText ''PRIMARY KEY'' (snd it)) tableDefinition"

fun prepared :: "event list \<Rightarrow> string list" where
  "prepared [] = []"
| "prepared (Prepare sql # es) = sql # prepared es"
| "prepared (Exec sql ps # es) = prepared es"

fun executed :: "event list \<Rightarrow> string list" where
  "executed [] = []"
| "executed (Prepare sql # es) = executed es"
| "executed (Exec sql ps # es) = sql # executed es"

definition emptyWorld :: world where
  "emptyWorld = \<lparr>db = [], log = [], trace = []\<rparr>"

text \<open>
  Runs of the registry and table operations, with the names of all tables the catalog has
  held so far. Ad hoc SQL handed to \<open>executeQuery\<close> by other classes is not among them.
\<close>

datatype operation =
    EnsureVersionTable
  | CreateTableOp string "(string \<times> string) list"
  | DropTableOp string
  | SetTableVersionOp string cint
  | GetTableVersionOp string
  | IsTablePresentOp string

fun perform :: "operation \<Rightarrow> world \<Rightarrow> world" where
  "perform EnsureVersionTable w = snd (ensureVersionTable w)"
| "perform (CreateTableOp n tableDefinition) w = snd (createTable w n tableDefinition)"
| "perform (DropTableOp n) w = snd (dropTable w n)"
| "perform (SetTableVersionOp n v) w = snd (setTableVersion w n v)"
| "perform (GetTableVersionOp n) w = snd (getTableVersion w n)"
| "perform (IsTablePresentOp n) w = w"

fun run :: "operation list \<Rightarrow> world \<times> string list \<Rightarrow> world \<times> string list" where
  "run [] st = st"
| "run (op # ops) st =
     (let w = perform op (fst st) in run ops (w, snd st @ map tname (db w)))"

definition registryInv :: "world \<times> string list \<Rightarrow> bool" where
  "registryInv st =
     (case registryRows (db (fst st)) of
        None \<Rightarrow> True
      | Some rows \<Rightarrow> list_all (\<lambda>r. fst r \<in> set (snd st)) rows)"

text \<open>
  What \<open>getTableVersion\<close> reads for a name from the rows of the version table: the value
  of the first matching row as \<open>toUInt\<close> converts it, or nothing when the table is missing
  or unusable, no row matches, or the value is \<open>NULL\<close>.
\<close>

definition storedVersion :: "(string \<times> sqlvalue) list option \<Rightarrow> string \<Rightarrow> cint option" where
  "storedVersion reg n =
     (case reg of
        None \<Rightarrow> None
      | Some rows \<Rightarrow>
          (case filter (\<lambda>r. fst r = n) rows of
             [] \<Rightarrow> None
           | r # rs \<Rightarrow> (case snd r of SqlNull \<Rightarrow> None | SqlInteger i \<Rightarrow> Some (ucast i))))"

text \<open>The worlds of the specification's end-to-end scenario.\<close>

definition demoDefinition :: "(string \<times> string) list" where
  "demoDefinition = [(''id'', ''INTEGER PRIMARY KEY''), (''weight'', ''REAL'')]"

definition registryWorld :: world where
  "registryWorld = snd (ensureVersionTable emptyWorld)"

definition demoWorld :: world where
  "demoWorld = snd (createTable registryWorld ''Measurements'' demoDefinition)"

section \<open>Strings and SQL text\<close>

lemma indexOf_nonneg: "(0 \<le> indexOf xs x) = (x \<in> set xs)"
  by (induction xs) (auto simp: Let_def)

lemma isTablePresent_iff: "isTablePresent w n = (n \<in> set (map tname (db w)))"
  by (simp add: isTablePresent_def indexOf_nonneg)

lemma sameName_refl: "sameName n n"
  by (simp add: sameName_def)

lemma argTokens_plain:
  "CHR ''%'' \<notin> set xs \<Longrightarrow> argTokens (xs @ ys) = map Plain xs @ argTokens ys"
  by (induction xs) auto

lemma markerNumbers_plain: "markerNumbers (map Plain xs @ ts) = markerNumbers ts"
  by (induction xs) auto

lemma argSubst_plain: "concat (map (argSubst m a \<circ> Plain) xs) = xs"
  by (induction xs) auto

lemma QString_arg_first:
  "QString_arg ''CREATE TABLE `%1` (%2) WITHOUT ROWID;'' a = ''CREATE TABLE `'' @ a @ ''` (%2) WITHOUT ROWID;''"
  by (simp add: QString_arg_def argMarker_def isDigit_def digitValue_def)

lemma argTokens_tail:
  "argTokens ''` (%2) WITHOUT ROWID;'' =
     map Plain ''` ('' @ [Marker 2 ''%2''] @ map Plain '') WITHOUT ROWID;''"
  by (simp add: argMarker_def isDigit_def digitValue_def)

lemma argSubst_shape:
  "concat (map (argSubst m a) (map Plain xs @ [Marker m src] @ map Plain ys)) = xs @ a @ ys"
  by (simp add: argSubst_plain)

lemma markerNumbers_shape:
  "markerNumbers (map Plain xs @ [Marker m src] @ map Plain ys) = [m]"
proof -
  have "markerNumbers (map Plain ys) = []"
    using markerNumbers_plain [of ys "[]"] by simp
  then show ?thesis
    by (simp add: markerNumbers_plain)
qed

lemma QString_arg_shape:
  assumes "argTokens s = map Plain xs @ [Marker m src] @ map Plain ys"
  shows "QString_arg s a = xs @ a @ ys"
  unfolding QString_arg_def assms markerNumbers_shape
  using argSubst_shape [of m a xs src ys] by simp

lemma QString_arg_second:
  assumes "CHR ''%'' \<notin> set n"
  shows "QString_arg (''CREATE TABLE `'' @ n @ ''` (%2) WITHOUT ROWID;'') b =
           ''CREATE TABLE `'' @ n @ ''` ('' @ b @ '') WITHOUT ROWID;''"
proof -
  let ?P = "''CREATE TABLE `''"
  have pre: "CHR ''%'' \<notin> set (?P @ n)"
    using assms by simp
  have tok: "argTokens ((?P @ n) @ ''` (%2) WITHOUT ROWID;'') =
      map Plain (?P @ n) @ argTokens ''` (%2) WITHOUT ROWID;''"
    by (rule argTokens_plain [OF pre])
  have "argTokens (?P @ n @ ''` (%2) WITHOUT ROWID;'') =
      map Plain (?P @ n @ ''` ('') @ [Marker 2 ''%2''] @ map Plain '') WITHOUT ROWID;''"
    using tok unfolding argTokens_tail by (simp only: append_assoc map_append)
  from QString_arg_shape [OF this, of b] show ?thesis
    by (simp only: append_assoc)
qed

lemma createTableSql_plain:
  assumes "CHR ''%'' \<notin> set n"
  shows "createTableSql n def =
     ''CREATE TABLE `'' @ n @ ''` ('' @ join '', '' (map (\<lambda>it. fst it @ '' '' @ snd it) def) @ '') WITHOUT ROWID;''"
proof -
  have "createTableSql n def =
      QString_arg (''CREATE TABLE `'' @ n @ ''` (%2) WITHOUT ROWID;'')
        (join '', '' (map (\<lambda>it. fst it @ '' '' @ snd it) def))"
    unfolding createTableSql_def Let_def QString_arg_first ..
  then show ?thesis
    unfolding QString_arg_second [OF assms] .
qed

lemma stripPrefix_append: "stripPrefix xs (xs @ ys) = Some ys"
  by (induction xs) auto

lemma stripSuffix_append: "stripSuffix suf (xs @ suf) = Some xs"
  by (simp add: stripSuffix_def stripPrefix_append)

lemma isIdentChar_not_special:
  "isIdentChar c \<Longrightarrow> c \<noteq> CHR 0x60 \<and> c \<noteq> CHR ''['' \<and> c \<noteq> CHR ''%'' \<and> c \<noteq> CHR '';''"
  by (auto simp: isIdentChar_def isLetter_def lowerCode_def isDigit_def)

lemma isIdentStart_isIdentChar: "isIdentStart c \<Longrightarrow> isIdentChar c"
  by (auto simp: isIdentStart_def isIdentChar_def)

lemma identifierOk_chars: "identifierOk n \<Longrightarrow> c \<in> set n \<Longrightarrow> isIdentChar c"
  by (auto simp: identifierOk_def list_all_iff isIdentStart_isIdentChar split: list.splits)

lemma identifierOk_plain:
  assumes "identifierOk n"
  shows "n \<noteq> []" and "CHR 0x60 \<notin> set n" and "CHR ''%'' \<notin> set n"
  using assms identifierOk_chars [OF assms] isIdentChar_not_special
  by (auto simp: identifierOk_def)

lemma quotedName_closed:
  assumes "n \<noteq> []" and "q \<notin> set n"
  shows "quotedName q (n @ q # r) = Some (n, r)"
proof -
  have "takeWhile (\<lambda>x. x \<noteq> q) (n @ q # r) = n"
    using assms(2) by (induction n) auto
  moreover have "dropWhile (\<lambda>x. x \<noteq> q) (n @ q # r) = q # r"
    using assms(2) by (induction n) auto
  ultimately show ?thesis
    using assms(1) by (simp add: quotedName_def)
qed

lemma parseName_quoted:
  assumes "n \<noteq> []" and "CHR 0x60 \<notin> set n"
  shows "parseName (CHR 0x60 # n @ CHR 0x60 # r) = Some (n, r)"
  by (simp add: parseName_def quotedName_closed [OF assms])

lemma parseSql_create:
  assumes "n \<noteq> []" and "CHR 0x60 \<notin> set n"
  shows "parseSql (''CREATE TABLE `'' @ n @ ''` ('' @ cols @ '') WITHOUT ROWID;'') =
           Some (CreateTable False n cols)"
proof -
  have "parseCreate False (CHR 0x60 # n @ CHR 0x60 # '' ('' @ cols @ '') WITHOUT ROWID;'') =
          Some (CreateTable False n cols)"
    unfolding parseCreate_def parseName_quoted [OF assms]
    using stripSuffix_append [of "'') WITHOUT ROWID;''" cols] by simp
  then show ?thesis
    by (simp add: parseSql_def)
qed

lemma parseName_bare:
  assumes "identifierOk n" and "\<not> isIdentChar x"
  shows "parseName (n @ x # r) = Some (n, x # r)"
proof -
  obtain c cs where n: "n = c # cs" and c: "isIdentStart c" and cs: "\<forall>y\<in>set cs. isIdentChar y"
    using assms(1) by (auto simp: identifierOk_def list_all_iff split: list.splits)
  have "c \<noteq> CHR 0x60" and "c \<noteq> CHR ''[''"
    using c isIdentStart_isIdentChar isIdentChar_not_special by blast+
  moreover have "takeWhile isIdentChar (cs @ x # r) = cs"
    using cs assms(2) by simp
  moreover have "dropWhile isIdentChar (cs @ x # r) = x # r"
    using cs assms(2) by simp
  ultimately show ?thesis
    using c by (simp add: parseName_def n)
qed

lemma parseSql_drop:
  assumes "identifierOk n"
  shows "parseSql (''DROP TABLE '' @ n @ '';'') = Some (DropTable n)"
proof -
  have "\<not> isIdentChar CHR '';''"
    using isIdentChar_not_special by blast
  from parseName_bare [OF assms this, of "[]"]
  have "parseDrop (n @ '';'') = Some (DropTable n)"
    by (simp add: parseDrop_def)
  then show ?thesis
    by (simp add: parseSql_def)
qed

section \<open>Effects of the operations\<close>

lemma prepared_append: "prepared (xs @ ys) = prepared xs @ prepared ys"
  by (induction xs rule: prepared.induct) auto


lemma executeQuery_unfold:
  "executeQuery w sql =
     (case sqlite_prepare (db w) sql of
        None \<Rightarrow> (False, w\<lparr>trace := trace w @ [Prepare sql]\<rparr>)
      | Some st \<Rightarrow>
          (case sqlite_exec (db w) st [] of
             None \<Rightarrow> (False, w\<lparr>trace := trace w @ [Prepare sql, Exec sql []]\<rparr>)
           | Some (d, rows) \<Rightarrow> (True, w\<lparr>db := d, trace := trace w @ [Prepare sql, Exec sql []]\<rparr>)))"
  by (simp add: executeQuery_def query_prepare_def query_exec_def split: option.splits)

lemma executeQuery_log: "log (snd (executeQuery w sql)) = log w"
  by (simp add: executeQuery_unfold split: option.splits)

lemma executeQuery_prepared:
  "prepared (trace (snd (executeQuery w sql))) = prepared (trace w) @ [sql]"
  by (simp add: executeQuery_unfold prepared_append split: option.splits)

lemma executeQuery_failed:
  "\<not> fst (executeQuery w sql) \<Longrightarrow> db (snd (executeQuery w sql)) = db w"
  by (auto simp: executeQuery_unfold split: option.splits)

lemma executeQuery_done:
  assumes "executeQuery w sql = (True, w')"
  obtains st d rows where "parseSql sql = Some st" and "compiles (db w) st"
    and "sqlite_exec (db w) st [] = Some (d, rows)"
    and "w' = w\<lparr>db := d, trace := trace w @ [Prepare sql, Exec sql []]\<rparr>"
  using assms
  by (auto simp: executeQuery_unfold sqlite_prepare_def split: option.splits if_splits)

lemma hasTable_iff: "hasTable d n = (\<exists>t\<in>set d. sameName (tname t) n)"
  by (simp add: hasTable_def list_ex_iff)

lemma present_hasTable: "isTablePresent w n \<Longrightarrow> hasTable (db w) n"
  using sameName_refl by (auto simp: isTablePresent_iff hasTable_iff)

lemma createTable_unfold:
  "createTable w n def =
     executeQuery (w\<lparr>log := log w @ [(Debug, [Lit ''Creating table'', QStr n, Lit '':'', QStr (createTableSql n def)])]\<rparr>)
       (createTableSql n def)"
  by (simp add: createTable_def qDebug_def Let_def)

lemma createTable_done:
  assumes ok: "identifierOk n" and run: "createTable w n def = (True, w')"
  shows "db w' = db w @ [\<lparr>tname = n, tcolumns = join '', '' (map (\<lambda>it. fst it @ '' '' @ snd it) def), trows = []\<rparr>]"
    and "\<not> hasTable (db w) n"
proof -
  let ?cols = "join '', '' (map (\<lambda>it. fst it @ '' '' @ snd it) def)"
  let ?w1 = "w\<lparr>log := log w @ [(Debug, [Lit ''Creating table'', QStr n, Lit '':'', QStr (createTableSql n def)])]\<rparr>"
  have sql: "createTableSql n def = ''CREATE TABLE `'' @ n @ ''` ('' @ ?cols @ '') WITHOUT ROWID;''"
    by (rule createTableSql_plain) (rule identifierOk_plain(3) [OF ok])
  have parse: "parseSql (createTableSql n def) = Some (CreateTable False n ?cols)"
    unfolding sql by (rule parseSql_create [OF identifierOk_plain(1,2) [OF ok]])
  from run have "executeQuery ?w1 (createTableSql n def) = (True, w')"
    by (simp add: createTable_unfold)
  then obtain st d rows where st: "parseSql (createTableSql n def) = Some st"
    and comp: "compiles (db ?w1) st"
    and ex: "sqlite_exec (db ?w1) st [] = Some (d, rows)"
    and w': "w' = ?w1\<lparr>db := d, trace := trace ?w1 @ [Prepare (createTableSql n def), Exec (createTableSql n def) []]\<rparr>"
    by (rule executeQuery_done)
  from st parse have st_eq: "st = CreateTable False n ?cols" by simp
  from comp show "\<not> hasTable (db w) n" by (simp add: st_eq)
  with ex have "d = db w @ [\<lparr>tname = n, tcolumns = ?cols, trows = []\<rparr>]"
    by (simp add: st_eq)
  with w' show "db w' = db w @ [\<lparr>tname = n, tcolumns = ?cols, trows = []\<rparr>]" by simp
qed

lemma createTable_existing:
  assumes ok: "identifierOk n" and here: "isTablePresent w n"
  shows "\<not> fst (createTable w n def)"
proof
  assume "fst (createTable w n def)"
  then have "createTable w n def = (True, snd (createTable w n def))"
    by (cases "createTable w n def") simp
  from createTable_done(2) [OF ok this] present_hasTable [OF here] show False by simp
qed

lemma dropTable_unfold:
  "isTablePresent w n \<Longrightarrow>
   dropTable w n =
     (if fst (executeQuery w (''DROP TABLE '' @ n @ '';''))
      then (True, snd (executeQuery w (''DROP TABLE '' @ n @ '';'')))
      else (False, qWarning (snd (executeQuery w (''DROP TABLE '' @ n @ '';'')))
                     [Lit ''Cannot drop table'', QStr n]))"
  by (simp add: dropTable_def split: prod.splits bool.splits)

lemma dropTable_done:
  assumes ok: "identifierOk n" and here: "isTablePresent w n" and run: "dropTable w n = (True, w')"
  shows "w' = w\<lparr>db := filter (\<lambda>t. \<not> sameName (tname t) n) (db w),
                 trace := trace w @ [Prepare (''DROP TABLE '' @ n @ '';''), Exec (''DROP TABLE '' @ n @ '';'') []]\<rparr>"
proof -
  let ?sql = "''DROP TABLE '' @ n @ '';''"
  from run here have "executeQuery w ?sql = (True, w')"
    by (cases "executeQuery w ?sql") (simp add: dropTable_unfold split: if_splits)
  then obtain st d rows where st: "parseSql ?sql = Some st"
    and ex: "sqlite_exec (db w) st [] = Some (d, rows)"
    and w': "w' = w\<lparr>db := d, trace := trace w @ [Prepare ?sql, Exec ?sql []]\<rparr>"
    by (rule executeQuery_done)
  from st parseSql_drop [OF ok] have "st = DropTable n" by simp
  with ex have "d = filter (\<lambda>t. \<not> sameName (tname t) n) (db w)"
    by (simp split: if_splits)
  with w' show ?thesis by simp
qed

lemma parseSql_insert:
  "parseSql ''INSERT OR REPLACE INTO TablesVersions (tableName, version) VALUES (:tableName, :version);'' = Some InsertVersion"
  by (simp add: parseSql_def)

lemma find_map_same:
  assumes "\<And>t. P (f t) = P t"
  shows "find P (map (\<lambda>t. if P t then f t else t) d) = map_option f (find P d)"
  using assms by (induction d) auto

lemma registryRows_updateRegistry:
  "registryRows (updateRegistry f d) = map_option f (registryRows d)"
proof -
  let ?P = "\<lambda>t. sameName (tname t) ''TablesVersions''"
  have "find ?P (map (\<lambda>t. if ?P t then t\<lparr>trows := f (trows t)\<rparr> else t) d) =
          map_option (\<lambda>t. t\<lparr>trows := f (trows t)\<rparr>) (find ?P d)"
    by (rule find_map_same) simp
  then show ?thesis
    by (cases "find ?P d") (simp_all add: registryRows_def findTable_def updateRegistry_def)
qed

lemma names_updateRegistry: "map tname (updateRegistry f d) = map tname d"
  by (simp add: updateRegistry_def)



lemma setTableVersion_absent:
  "\<not> isTablePresent w VERSION_TABLE_NAME \<or> \<not> isTablePresent w n \<Longrightarrow> setTableVersion w n v = (False, w)"
  by (auto simp: setTableVersion_def)

lemma setTableVersion_present:
  assumes "isTablePresent w VERSION_TABLE_NAME" and "isTablePresent w n"
  shows "setTableVersion w n v =
     (let sql = ''INSERT OR REPLACE INTO TablesVersions (tableName, version) VALUES (:tableName, :version);''
      in case registryRows (db w) of
           None \<Rightarrow> (False, qWarning (w\<lparr>trace := trace w @ [Prepare sql]\<rparr>)
                              [Lit ''Cannot save version for table'', QStr n])
         | Some rows \<Rightarrow>
             (True, w\<lparr>db := updateRegistry (upsertRow n (SqlInteger (scast v))) (db w),
                       trace := trace w @ [Prepare sql, Exec sql [('':tableName'', ParamText n), ('':version'', ParamInt v)]]\<rparr>))"
  using assms
  by (simp add: setTableVersion_def query_prepare_def query_exec_def sqlite_prepare_def
        parseSql_insert Let_def split: option.splits)

lemma getTableVersion_present:
  assumes "isTablePresent w VERSION_TABLE_NAME" and "isTablePresent w n"
  shows "fst (getTableVersion w n) =
           (case storedVersion (registryRows (db w)) n of None \<Rightarrow> -1 | Some u \<Rightarrow> u)"
  using assms
  by (simp add: getTableVersion_def query_prepare_def query_exec_def sqlite_prepare_def
        parseSql_def VERSION_TABLE_NAME_def storedVersion_def versionNotFound_def Let_def
        split: option.splits list.splits sqlvalue.splits)

lemma getTableVersion_db: "db (snd (getTableVersion w n)) = db w"
  by (simp add: getTableVersion_def query_prepare_def query_exec_def sqlite_prepare_def
        parseSql_def VERSION_TABLE_NAME_def versionNotFound_def qWarning_def Let_def
        split: option.splits list.splits sqlvalue.splits prod.splits bool.splits)


section \<open>The version table along a run\<close>

lemma sameName_sym: "sameName a b \<Longrightarrow> sameName b a"
  by (simp add: sameName_def)

lemma sameName_trans: "sameName a b \<Longrightarrow> sameName b c \<Longrightarrow> sameName a c"
  by (simp add: sameName_def)

lemma find_snoc:
  "find P (d @ [t]) = (case find P d of Some x \<Rightarrow> Some x | None \<Rightarrow> if P t then Some t else None)"
  by (induction d) auto

lemma registryRows_snoc:
  "registryRows (d @ [\<lparr>tname = n, tcolumns = cols, trows = []\<rparr>]) = registryRows d \<or>
   registryRows (d @ [\<lparr>tname = n, tcolumns = cols, trows = []\<rparr>]) = Some [] \<or>
   registryRows (d @ [\<lparr>tname = n, tcolumns = cols, trows = []\<rparr>]) = None"
  by (simp add: registryRows_def findTable_def find_snoc split: option.splits)

lemma find_filter_keep:
  assumes "\<And>t. P t \<Longrightarrow> Q t"
  shows "find P (filter Q d) = find P d"
  using assms by (induction d) auto

lemma find_filter_drop:
  assumes "\<And>t. P t \<Longrightarrow> \<not> Q t"
  shows "find P (filter Q d) = None"
  using assms by (induction d) auto

lemma registryRows_drop_other:
  assumes "\<not> sameName n ''TablesVersions''"
  shows "registryRows (filter (\<lambda>t. \<not> sameName (tname t) n) d) = registryRows d"
proof -
  have "find (\<lambda>t. sameName (tname t) ''TablesVersions'') (filter (\<lambda>t. \<not> sameName (tname t) n) d) =
        find (\<lambda>t. sameName (tname t) ''TablesVersions'') d"
  proof (rule find_filter_keep)
    fix t assume "sameName (tname t) ''TablesVersions''"
    with assms show "\<not> sameName (tname t) n"
      using sameName_sym sameName_trans by blast
  qed
  then show ?thesis by (simp add: registryRows_def findTable_def)
qed

lemma registryRows_drop_registry:
  assumes "sameName n ''TablesVersions''"
  shows "registryRows (filter (\<lambda>t. \<not> sameName (tname t) n) d) = None"
proof -
  have "find (\<lambda>t. sameName (tname t) ''TablesVersions'') (filter (\<lambda>t. \<not> sameName (tname t) n) d) = None"
  proof (rule find_filter_drop)
    fix t assume "sameName (tname t) ''TablesVersions''"
    with assms show "\<not> \<not> sameName (tname t) n"
      using sameName_sym sameName_trans by blast
  qed
  then show ?thesis by (simp add: registryRows_def findTable_def)
qed

lemma sqlite_exec_registry:
  assumes "sqlite_exec d st [] = Some (d', res)"
  shows "registryRows d' = registryRows d \<or> registryRows d' = Some [] \<or> registryRows d' = None"
proof (cases st)
  case (CreateTable ine n cols)
  with assms registryRows_snoc [of d n cols] show ?thesis
    by (auto split: if_splits)
next
  case (DropTable n)
  with assms registryRows_drop_other [of n d] registryRows_drop_registry [of n d] show ?thesis
    by (cases "sameName n ''TablesVersions''") (auto split: if_splits)
next
  case SelectVersion
  with assms show ?thesis by simp
next
  case InsertVersion
  with assms show ?thesis by simp
qed

lemma executeQuery_registry:
  "registryRows (db (snd (executeQuery w sql))) = registryRows (db w) \<or>
   registryRows (db (snd (executeQuery w sql))) = Some [] \<or>
   registryRows (db (snd (executeQuery w sql))) = None"
proof (cases "sqlite_prepare (db w) sql")
  case None
  then show ?thesis by (simp add: executeQuery_unfold)
next
  case (Some st)
  show ?thesis
  proof (cases "sqlite_exec (db w) st []")
    case None
    with Some show ?thesis by (simp add: executeQuery_unfold)
  next
    case (Some r)
    obtain d' res where r: "r = (d', res)" by (cases r)
    from sqlite_exec_registry [of "db w" st d' res] Some r \<open>sqlite_prepare (db w) sql = Some st\<close>
    show ?thesis by (simp add: executeQuery_unfold)
  qed
qed

lemma registryInv_weaken:
  assumes "registryInv (w, seen)"
    and "registryRows (db w') = registryRows (db w) \<or> registryRows (db w') = Some [] \<or> registryRows (db w') = None"
  shows "registryInv (w', seen @ extra)"
  using assms by (auto simp: registryInv_def list_all_iff split: option.splits)

lemma dropTable_registry:
  "registryRows (db (snd (dropTable w n))) = registryRows (db w) \<or>
   registryRows (db (snd (dropTable w n))) = Some [] \<or>
   registryRows (db (snd (dropTable w n))) = None"
proof (cases "isTablePresent w n")
  case False
  then show ?thesis by (simp add: dropTable_def)
next
  case True
  with executeQuery_registry [of w "''DROP TABLE '' @ n @ '';''"] show ?thesis
    by (simp add: dropTable_unfold qWarning_def)
qed

lemma createTable_registry:
  "registryRows (db (snd (createTable w n def))) = registryRows (db w) \<or>
   registryRows (db (snd (createTable w n def))) = Some [] \<or>
   registryRows (db (snd (createTable w n def))) = None"
  using executeQuery_registry [of "w\<lparr>log := log w @ [(Debug, [Lit ''Creating table'', QStr n, Lit '':'', QStr (createTableSql n def)])]\<rparr>" "createTableSql n def"]
  by (simp add: createTable_unfold)

lemma ensureVersionTable_registry:
  "registryRows (db (snd (ensureVersionTable w))) = registryRows (db w) \<or>
   registryRows (db (snd (ensureVersionTable w))) = Some [] \<or>
   registryRows (db (snd (ensureVersionTable w))) = None"
proof -
  define sql where "sql = ''CREATE TABLE IF NOT EXISTS '' @ VERSION_TABLE_NAME @
              '' (tableName TEXT PRIMARY KEY, version INTEGER) WITHOUT ROWID;''"
  have "db (snd (ensureVersionTable w)) = db (snd (executeQuery w sql))"
    unfolding ensureVersionTable_def sql_def [symmetric]
    by (simp add: qCritical_def split: prod.splits bool.splits)
  with executeQuery_registry [of w sql] show ?thesis by simp
qed

lemma set_upsertRow: "r \<in> set (upsertRow k v rows) \<Longrightarrow> fst r = k \<or> r \<in> set rows"
  by (auto simp: upsertRow_def)

lemma setTableVersion_inv:
  assumes "registryInv (w, seen)"
  shows "registryInv (snd (setTableVersion w n v), seen @ map tname (db (snd (setTableVersion w n v))))"
proof (cases "isTablePresent w VERSION_TABLE_NAME \<and> isTablePresent w n")
  case False
  then have "setTableVersion w n v = (False, w)"
    by (intro setTableVersion_absent) blast
  with assms show ?thesis
    by (simp add: registryInv_weaken)
next
  case True
  show ?thesis
  proof (cases "registryRows (db w)")
    case None
    with True have "db (snd (setTableVersion w n v)) = db w"
      by (simp add: setTableVersion_present qWarning_def Let_def)
    with assms show ?thesis
      by (simp add: registryInv_weaken)
  next
    case (Some rows)
    with True have d': "db (snd (setTableVersion w n v)) =
        updateRegistry (upsertRow n (SqlInteger (scast v))) (db w)"
      by (simp add: setTableVersion_present Let_def)
    from True have here: "n \<in> set (map tname (db w))"
      by (simp add: isTablePresent_iff)
    from assms Some have old: "\<forall>r\<in>set rows. fst r \<in> set seen"
      by (simp add: registryInv_def list_all_iff)
    have "\<forall>r\<in>set (upsertRow n (SqlInteger (scast v)) rows). fst r \<in> set seen \<union> set (map tname (db w))"
    proof
      fix r assume "r \<in> set (upsertRow n (SqlInteger (scast v)) rows)"
      from set_upsertRow [OF this] here old
      show "fst r \<in> set seen \<union> set (map tname (db w))" by auto
    qed
    with Some show ?thesis
      by (simp add: registryInv_def d' registryRows_updateRegistry names_updateRegistry list_all_iff)
  qed
qed

lemma perform_inv:
  assumes "registryInv (w, seen)"
  shows "registryInv (perform op w, seen @ map tname (db (perform op w)))"
proof (cases op)
  case EnsureVersionTable
  with assms ensureVersionTable_registry [of w] show ?thesis
    by (simp add: registryInv_weaken)
next
  case (CreateTableOp n def)
  with assms createTable_registry [of w n def] show ?thesis
    by (simp add: registryInv_weaken)
next
  case (DropTableOp n)
  with assms dropTable_registry [of w n] show ?thesis
    by (simp add: registryInv_weaken)
next
  case (SetTableVersionOp n v)
  with assms setTableVersion_inv [of w seen n v] show ?thesis by simp
next
  case (GetTableVersionOp n)
  with assms show ?thesis
    by (simp add: registryInv_weaken getTableVersion_db)
next
  case (IsTablePresentOp n)
  with assms show ?thesis
    by (simp add: registryInv_weaken)
qed

lemma run_inv: "registryInv st \<Longrightarrow> registryInv (run ops st)"
proof (induction ops arbitrary: st)
  case Nil
  then show ?case by simp
next
  case (Cons op ops)
  obtain w seen where st: "st = (w, seen)" by (cases st)
  from Cons.prems perform_inv [of w seen op] have "registryInv (perform op w, seen @ map tname (db (perform op w)))"
    by (simp add: st)
  from Cons.IH [OF this] show ?case
    by (simp add: st Let_def)
qed

section \<open>The version table: reading and writing a version\<close>

lemma getTableVersion_cases:
  "(\<not> isTablePresent w VERSION_TABLE_NAME \<longrightarrow> getTableVersion w n = (-1, w)) \<and>
   (isTablePresent w VERSION_TABLE_NAME \<and> \<not> isTablePresent w n \<longrightarrow> getTableVersion w n = (0, w)) \<and>
   (isTablePresent w VERSION_TABLE_NAME \<and> isTablePresent w n \<longrightarrow>
      fst (getTableVersion w n) =
        (case storedVersion (registryRows (db w)) n of None \<Rightarrow> -1 | Some u \<Rightarrow> u))"
  using getTableVersion_present [of w n] by (simp add: getTableVersion_def)

lemma narrow_small:
  assumes "uint (i :: 64 word) < 2 ^ 31"
  shows "sint (ucast i :: 32 word) = uint i"
proof -
  have "sint (word_of_int (uint i) :: 32 word) = signed_take_bit 31 (uint i)"
    using sint_sbintrunc' [where 'a = 32, of "uint i"] by simp
  moreover have "- (2 ^ 31) \<le> (0 :: int)" by simp
  then have "- (2 ^ 31) \<le> uint i"
    by (rule order_trans) simp
  then have "signed_take_bit 31 (uint i) = uint i"
    using assms by (rule signed_take_bit_int_eq_self)
  ultimately show ?thesis by simp
qed

lemma getTableVersion_stored:
  assumes "isTablePresent w VERSION_TABLE_NAME" and "isTablePresent w n"
    and "registryRows (db w) = Some rows"
    and "filter (\<lambda>r. fst r = n) rows = (n, SqlInteger i) # others"
    and "uint i < 2 ^ 31"
  shows "sint (fst (getTableVersion w n)) = uint i"
  using assms narrow_small [of i]
  by (simp add: getTableVersion_present storedVersion_def)

lemma getTableVersion_no_row:
  assumes "isTablePresent w VERSION_TABLE_NAME" and "isTablePresent w n"
    and "registryRows (db w) = Some rows"
    and "filter (\<lambda>r. fst r = n) rows = [] \<or> filter (\<lambda>r. fst r = n) rows = (n, SqlNull) # others"
  shows "sint (fst (getTableVersion w n)) = - 1"
  using assms
  by (auto simp: getTableVersion_present storedVersion_def)

text \<open>
  C1. \<open>getTableVersion\<close> is to return the stored non-negative version when the version table
  and the queried table are present and the row is valid, and -1 when the row is missing or
  its value is invalid. With the version table and the table \<open>Measurements\<close> present and the
  row \<open>(Measurements, 3000000000)\<close> stored, \<open>toUInt\<close> succeeds and the result, assigned to an
  \<open>int\<close>, is -1294967296: neither the stored version nor -1. The other cases are as the
  state table has them: no version table gives -1 and a missing table 0
  (\<open>getTableVersion_cases\<close>), a missing row or a \<open>NULL\<close> value gives -1
  (\<open>getTableVersion_no_row\<close>), and a stored value below \<open>2^31\<close> is returned as it is
  (\<open>getTableVersion_stored\<close>).
\<close>

theorem getTableVersion_narrows:
  "sint (fst (getTableVersion
      \<lparr>db = [\<lparr>tname = ''TablesVersions'',
                tcolumns = ''tableName TEXT PRIMARY KEY, version INTEGER'',
                trows = [(''Measurements'', SqlInteger 3000000000)]\<rparr>,
              \<lparr>tname = ''Measurements'',
                tcolumns = ''id INTEGER PRIMARY KEY, weight REAL'', trows = []\<rparr>],
        log = [], trace = []\<rparr> ''Measurements'')) = - 1294967296"
  by code_simp



section \<open>Table names in SQL text\<close>

text \<open>
  C3 (as the code has it). No table or column name is checked before it goes into SQL text. For
  every name without the place-marker character \<open>%\<close>, \<open>createTable\<close> hands the engine the
  statement \<open>CREATE TABLE `name` (c1 t1, c2 t2, ...) WITHOUT ROWID;\<close> with the name and the
  columns as given, and for every present table \<open>dropTable\<close> hands it \<open>DROP TABLE name;\<close>.
\<close>

theorem names_interpolated_unchecked:
  "(CHR ''%'' \<notin> set n \<longrightarrow>
      prepared (trace (snd (createTable w n def))) =
        prepared (trace w) @
        [''CREATE TABLE `'' @ n @ ''` ('' @
           join '', '' (map (\<lambda>it. fst it @ '' '' @ snd it) def) @ '') WITHOUT ROWID;'']) \<and>
   (isTablePresent w n \<longrightarrow>
      prepared (trace (snd (dropTable w n))) = prepared (trace w) @ [''DROP TABLE '' @ n @ '';''])"
proof (intro conjI impI)
  assume "CHR ''%'' \<notin> set n"
  from createTableSql_plain [OF this, of def]
  show "prepared (trace (snd (createTable w n def))) =
        prepared (trace w) @
        [''CREATE TABLE `'' @ n @ ''` ('' @
           join '', '' (map (\<lambda>it. fst it @ '' '' @ snd it) def) @ '') WITHOUT ROWID;'']"
    by (simp only: createTable_unfold executeQuery_prepared) simp
next
  assume "isTablePresent w n"
  then show "prepared (trace (snd (dropTable w n))) = prepared (trace w) @ [''DROP TABLE '' @ n @ '';'']"
    using executeQuery_prepared [of w "''DROP TABLE '' @ n @ '';''"]
    by (simp add: dropTable_unfold qWarning_def)
qed

theorem names_interpolated_unchecked_witness:
  "CHR ''%'' \<notin> set ''my table'' \<and>
   prepared (trace (snd (createTable emptyWorld ''my table'' demoDefinition))) =
     [''CREATE TABLE `my table` (id INTEGER PRIMARY KEY, weight REAL) WITHOUT ROWID;''] \<and>
   isTablePresent demoWorld ''Measurements'' \<and>
   prepared (trace (snd (dropTable demoWorld ''Measurements''))) =
     prepared (trace demoWorld) @ [''DROP TABLE Measurements;'']"
proof -
  have h1: "CHR ''%'' \<notin> set ''my table''" by simp
  have h2: "isTablePresent demoWorld ''Measurements''" by code_simp
  have e: "prepared (trace emptyWorld) = []" by (simp add: emptyWorld_def)
  from names_interpolated_unchecked [of "''my table''" emptyWorld demoDefinition] h1
  have c1: "prepared (trace (snd (createTable emptyWorld ''my table'' demoDefinition))) =
     [''CREATE TABLE `my table` (id INTEGER PRIMARY KEY, weight REAL) WITHOUT ROWID;'']"
    by (simp add: e demoDefinition_def)
  from names_interpolated_unchecked [of "''Measurements''" demoWorld] h2
  have c2: "prepared (trace (snd (dropTable demoWorld ''Measurements''))) =
     prepared (trace demoWorld) @ [''DROP TABLE Measurements;'']"
    by simp
  from h1 h2 c1 c2 show ?thesis by blast
qed

text \<open>
  As the specification words it, a name outside the identifier allow-list would never reach
  a statement. The table name \<open>my table\<close> and the column name \<open>row id\<close> are outside it, and
  the statement built from them is executed.
\<close>

theorem createTable_unvalidated_counterexample:
  "\<not> identifierOk ''my table'' \<and> \<not> identifierOk ''row id'' \<and>
   fst (createTable emptyWorld ''my table'' [(''row id'', ''INTEGER PRIMARY KEY'')]) \<and>
   executed (trace (snd (createTable emptyWorld ''my table'' [(''row id'', ''INTEGER PRIMARY KEY'')]))) =
     [''CREATE TABLE `my table` (row id INTEGER PRIMARY KEY) WITHOUT ROWID;'']"
  by code_simp

text \<open>
  C4 (as the code has it). \<open>createTable\<close> lists the columns in the order given, each as name, a
  space and its type clause, separated by a comma and a space, and always ends the statement
  with \<open>WITHOUT ROWID\<close>, whether or not the definition designates a primary key (for a
  table name without \<open>%\<close>).
\<close>

theorem createTable_statement:
  "CHR ''%'' \<notin> set n \<Longrightarrow>
   createTableSql n def =
     ''CREATE TABLE `'' @ n @ ''` ('' @
       join '', '' (map (\<lambda>it. fst it @ '' '' @ snd it) def) @ '') WITHOUT ROWID;''"
  by (rule createTableSql_plain)

theorem createTable_statement_witness:
  "CHR ''%'' \<notin> set ''Measurements'' \<and>
   createTableSql ''Measurements'' [(''id'', ''INTEGER PRIMARY KEY''), (''weight'', ''REAL'')] =
     ''CREATE TABLE `Measurements` (id INTEGER PRIMARY KEY, weight REAL) WITHOUT ROWID;''"
proof -
  have h: "CHR ''%'' \<notin> set ''Measurements''" by simp
  from createTable_statement [OF h, of "[(''id'', ''INTEGER PRIMARY KEY''), (''weight'', ''REAL'')]"]
  show ?thesis using h by simp
qed

text \<open>
  The clause is not reserved for definitions with a primary key: the definition
  \<open>[(a, INTEGER)]\<close> designates none and its statement ends with \<open>WITHOUT ROWID\<close> all the
  same.
\<close>

theorem createTable_rowid_counterexample:
  "\<not> designatesPrimaryKey [(''a'', ''INTEGER'')] \<and>
   createTableSql ''t'' [(''a'', ''INTEGER'')] = ''CREATE TABLE `t` (a INTEGER) WITHOUT ROWID;''"
  by code_simp


section \<open>Creating and dropping tables\<close>

text \<open>
  C5. For a table name on the identifier allow-list and any column definition: when
  \<open>createTable\<close> returns true, \<open>isTablePresent\<close> is true for the name in the resulting
  world; and when a table of that name is already present, \<open>createTable\<close> still hands its
  statement to the engine (there is no check beforehand), returns false and leaves the
  database as it was.
\<close>

theorem createTable_then_present:
  assumes "identifierOk n"
  shows "(createTable w n def = (True, w') \<longrightarrow> isTablePresent w' n) \<and>
         (isTablePresent w n \<longrightarrow>
            \<not> fst (createTable w n def) \<and>
            db (snd (createTable w n def)) = db w \<and>
            prepared (trace (snd (createTable w n def))) =
              prepared (trace w) @ [createTableSql n def])"
proof (intro conjI impI)
  assume "createTable w n def = (True, w')"
  from createTable_done(1) [OF assms this] show "isTablePresent w' n"
    by (simp add: isTablePresent_iff)
next
  assume here: "isTablePresent w n"
  from createTable_existing [OF assms here] show no: "\<not> fst (createTable w n def)" .
  then show "db (snd (createTable w n def)) = db w"
    using executeQuery_failed by (simp add: createTable_unfold)
  show "prepared (trace (snd (createTable w n def))) = prepared (trace w) @ [createTableSql n def]"
    by (simp add: createTable_unfold executeQuery_prepared)
qed

theorem createTable_then_present_witness:
  "identifierOk ''Measurements'' \<and>
   createTable registryWorld ''Measurements'' demoDefinition = (True, demoWorld) \<and>
   isTablePresent demoWorld ''Measurements'' \<and>
   \<not> fst (createTable demoWorld ''Measurements'' demoDefinition) \<and>
   db (snd (createTable demoWorld ''Measurements'' demoDefinition)) = db demoWorld"
proof -
  have h1: "identifierOk ''Measurements''" by code_simp
  have h2: "createTable registryWorld ''Measurements'' demoDefinition = (True, demoWorld)"
    by code_simp
  from createTable_then_present [OF h1, of registryWorld demoDefinition demoWorld] h2
  have c1: "isTablePresent demoWorld ''Measurements''" by blast
  from createTable_then_present [OF h1, of demoWorld demoDefinition] c1
  have c2: "\<not> fst (createTable demoWorld ''Measurements'' demoDefinition) \<and>
      db (snd (createTable demoWorld ''Measurements'' demoDefinition)) = db demoWorld" by blast
  from h1 h2 c1 c2 show ?thesis by blast
qed




text \<open>
  That database is what two calls of \<open>createTable\<close> on the empty database give.
\<close>

lemma quoted_world_reachable:
  "db (perform (CreateTableOp ''[x]'' [(''id'', ''INTEGER PRIMARY KEY'')])
        (perform (CreateTableOp ''x'' [(''id'', ''INTEGER PRIMARY KEY'')]) emptyWorld)) =
     [\<lparr>tname = ''x'', tcolumns = ''id INTEGER PRIMARY KEY'', trows = []\<rparr>,
      \<lparr>tname = ''[x]'', tcolumns = ''id INTEGER PRIMARY KEY'', trows = []\<rparr>]"
  by code_simp


section \<open>Round trip, the executor, the invariant and the readers\<close>




text \<open>
  C8 (as the code has it). For every SQL string \<open>executeQuery\<close> returns false without executing
  when preparation fails (the statement is prepared and nothing else happens), returns false
  with the database unchanged when execution fails, and returns true with the engine's new
  database otherwise. It is a total function: nothing is raised. It writes no log line in
  any case.
\<close>

theorem executeQuery_outcomes:
  "(sqlite_prepare (db w) sql = None \<longrightarrow>
      executeQuery w sql = (False, w\<lparr>trace := trace w @ [Prepare sql]\<rparr>)) \<and>
   (sqlite_prepare (db w) sql = Some st \<and> sqlite_exec (db w) st [] = None \<longrightarrow>
      executeQuery w sql = (False, w\<lparr>trace := trace w @ [Prepare sql, Exec sql []]\<rparr>)) \<and>
   (sqlite_prepare (db w) sql = Some st \<and> sqlite_exec (db w) st [] = Some (d, rows) \<longrightarrow>
      executeQuery w sql = (True, w\<lparr>db := d, trace := trace w @ [Prepare sql, Exec sql []]\<rparr>)) \<and>
   log (snd (executeQuery w sql)) = log w"
proof (intro conjI impI)
  show "log (snd (executeQuery w sql)) = log w" by (rule executeQuery_log)
qed (simp_all add: executeQuery_unfold)

theorem executeQuery_outcomes_witness:
  "sqlite_prepare (db emptyWorld) ''DROP TABLE Missing;'' = None \<and>
   executeQuery emptyWorld ''DROP TABLE Missing;'' =
     (False, emptyWorld\<lparr>trace := trace emptyWorld @ [Prepare ''DROP TABLE Missing;'']\<rparr>) \<and>
   sqlite_prepare (db registryWorld)
     ''SELECT version FROM TablesVersions WHERE tableName = :tableName;'' = Some SelectVersion \<and>
   sqlite_exec (db registryWorld) SelectVersion [] = None \<and>
   \<not> fst (executeQuery registryWorld
     ''SELECT version FROM TablesVersions WHERE tableName = :tableName;'') \<and>
   sqlite_prepare (db demoWorld) ''DROP TABLE Measurements;'' = Some (DropTable ''Measurements'') \<and>
   sqlite_exec (db demoWorld) (DropTable ''Measurements'') [] = Some (db registryWorld, []) \<and>
   fst (executeQuery demoWorld ''DROP TABLE Measurements;'')"
proof -
  have h1: "sqlite_prepare (db emptyWorld) ''DROP TABLE Missing;'' = None" by code_simp
  have h2: "sqlite_prepare (db registryWorld)
     ''SELECT version FROM TablesVersions WHERE tableName = :tableName;'' = Some SelectVersion"
    by code_simp
  have h3: "sqlite_exec (db registryWorld) SelectVersion [] = None" by code_simp
  have h4: "sqlite_prepare (db demoWorld) ''DROP TABLE Measurements;'' = Some (DropTable ''Measurements'')"
    by code_simp
  have h5: "sqlite_exec (db demoWorld) (DropTable ''Measurements'') [] = Some (db registryWorld, [])"
    by code_simp
  from executeQuery_outcomes [of emptyWorld "''DROP TABLE Missing;''"] h1
  have c1: "executeQuery emptyWorld ''DROP TABLE Missing;'' =
     (False, emptyWorld\<lparr>trace := trace emptyWorld @ [Prepare ''DROP TABLE Missing;'']\<rparr>)"
    by blast
  from executeQuery_outcomes [of registryWorld
      "''SELECT version FROM TablesVersions WHERE tableName = :tableName;''" SelectVersion] h2 h3
  have c2: "\<not> fst (executeQuery registryWorld
     ''SELECT version FROM TablesVersions WHERE tableName = :tableName;'')"
    by simp
  from executeQuery_outcomes [of demoWorld "''DROP TABLE Measurements;''" "DropTable ''Measurements''"
      "db registryWorld" "[]"] h4 h5
  have c3: "fst (executeQuery demoWorld ''DROP TABLE Measurements;'')"
    by simp
  from h1 h2 h3 h4 h5 c1 c2 c3 show ?thesis by blast
qed

text \<open>
  A failure is not reported in the log: a statement that fails to prepare and one that
  fails to execute both leave the log empty.
\<close>

theorem executeQuery_silent_counterexample:
  "\<not> fst (executeQuery emptyWorld ''DROP TABLE Missing;'') \<and>
   log (snd (executeQuery emptyWorld ''DROP TABLE Missing;'')) = [] \<and>
   \<not> fst (executeQuery registryWorld
     ''SELECT version FROM TablesVersions WHERE tableName = :tableName;'') \<and>
   log (snd (executeQuery registryWorld
     ''SELECT version FROM TablesVersions WHERE tableName = :tableName;'')) = []"
  by code_simp

lemma dropTable_keeps_rows:
  assumes ok: "identifierOk n" and other: "\<not> sameName n VERSION_TABLE_NAME"
  shows "registryRows (db (snd (dropTable w n))) = registryRows (db w)"
proof (cases "isTablePresent w n")
  case False
  then show ?thesis by (simp add: dropTable_def)
next
  case True
  show ?thesis
  proof (cases "fst (dropTable w n)")
    case False
    with True have "db (snd (dropTable w n)) = db w"
      using executeQuery_failed [of w "''DROP TABLE '' @ n @ '';''"]
      by (simp add: dropTable_unfold qWarning_def split: if_splits)
    then show ?thesis by simp
  next
    case yes: True
    then have "dropTable w n = (True, snd (dropTable w n))"
      by (cases "dropTable w n") simp
    from dropTable_done [OF ok True this]
    have "db (snd (dropTable w n)) = filter (\<lambda>t. \<not> sameName (tname t) n) (db w)"
      by (rule ssubst) simp
    with registryRows_drop_other [of n "db w"] other show ?thesis
      by (simp add: VERSION_TABLE_NAME_def)
  qed
qed

lemma fresh_database_invariant: "registryInv (run ops (emptyWorld, []))"
proof (rule run_inv)
  show "registryInv (emptyWorld, [])"
    by (simp add: registryInv_def emptyWorld_def registryRows_def findTable_def)
qed

text \<open>
  C9. Along every run of \<open>ensureVersionTable\<close>, \<open>createTable\<close>, \<open>dropTable\<close>,
  \<open>setTableVersion\<close>, \<open>getTableVersion\<close> and \<open>isTablePresent\<close>, if every key of the
  version table names a table the catalog holds or has held, this is so at the end of the
  run as well. Rows are not pruned: dropping a table other than the version table, with a
  name on the identifier allow-list, leaves the rows of the version table as they are.
\<close>

theorem registry_rows_name_known_tables:
  "(registryInv st \<longrightarrow> registryInv (run ops st)) \<and>
   (identifierOk n \<and> \<not> sameName n VERSION_TABLE_NAME \<longrightarrow>
      registryRows (db (snd (dropTable w n))) = registryRows (db w))"
  using run_inv [of st ops] dropTable_keeps_rows [of n w] by blast

theorem registry_rows_name_known_tables_witness:
  "registryInv
     (\<lparr>db = [\<lparr>tname = ''TablesVersions'',
               tcolumns = ''tableName TEXT PRIMARY KEY, version INTEGER'',
               trows = [(''Measurements'', SqlInteger 1)]\<rparr>,
             \<lparr>tname = ''Measurements'',
               tcolumns = ''id INTEGER PRIMARY KEY, weight REAL'', trows = []\<rparr>],
        log = [], trace = []\<rparr>, [''TablesVersions'', ''Measurements'']) \<and>
   registryInv
     (run [DropTableOp ''Measurements'']
       (\<lparr>db = [\<lparr>tname = ''TablesVersions'',
                 tcolumns = ''tableName TEXT PRIMARY KEY, version INTEGER'',
                 trows = [(''Measurements'', SqlInteger 1)]\<rparr>,
               \<lparr>tname = ''Measurements'',
                 tcolumns = ''id INTEGER PRIMARY KEY, weight REAL'', trows = []\<rparr>],
          log = [], trace = []\<rparr>, [''TablesVersions'', ''Measurements''])) \<and>
   registryRows (db (fst
     (run [DropTableOp ''Measurements'']
       (\<lparr>db = [\<lparr>tname = ''TablesVersions'',
                 tcolumns = ''tableName TEXT PRIMARY KEY, version INTEGER'',
                 trows = [(''Measurements'', SqlInteger 1)]\<rparr>,
               \<lparr>tname = ''Measurements'',
                 tcolumns = ''id INTEGER PRIMARY KEY, weight REAL'', trows = []\<rparr>],
          log = [], trace = []\<rparr>, [''TablesVersions'', ''Measurements''])))) =
     Some [(''Measurements'', SqlInteger 1)] \<and>
   identifierOk ''Measurements'' \<and> \<not> sameName ''Measurements'' VERSION_TABLE_NAME \<and>
   registryRows (db (snd (dropTable demoWorld ''Measurements''))) = registryRows (db demoWorld)"
proof -
  let ?st = "(\<lparr>db = [\<lparr>tname = ''TablesVersions'',
                 tcolumns = ''tableName TEXT PRIMARY KEY, version INTEGER'',
                 trows = [(''Measurements'', SqlInteger 1)]\<rparr>,
               \<lparr>tname = ''Measurements'',
                 tcolumns = ''id INTEGER PRIMARY KEY, weight REAL'', trows = []\<rparr>],
          log = [], trace = []\<rparr>, [''TablesVersions'', ''Measurements''])"
  have h1: "registryInv ?st" by code_simp
  have h2: "identifierOk ''Measurements''" by code_simp
  have h3: "\<not> sameName ''Measurements'' VERSION_TABLE_NAME" by code_simp
  have e1: "registryRows (db (fst (run [DropTableOp ''Measurements''] ?st))) =
      Some [(''Measurements'', SqlInteger 1)]"
    by code_simp
  from registry_rows_name_known_tables [of ?st "[DropTableOp ''Measurements'']" "''Measurements''" demoWorld] h1 h2 h3
  have c: "registryInv (run [DropTableOp ''Measurements''] ?st) \<and>
    registryRows (db (snd (dropTable demoWorld ''Measurements''))) = registryRows (db demoWorld)"
    by blast
  from h1 h2 h3 e1 c show ?thesis by blast
qed

text \<open>
  C10. \<open>getTableVersion\<close> leaves the database (the tables, their declarations and every
  row of the version table) as it was, whatever it returns; it only adds to the log and to
  the list of statements handed to the engine. \<open>isTablePresent\<close> reads the catalog and
  returns a truth value: the world after it is the world before it.
\<close>

theorem readers_leave_database:
  "db (perform (GetTableVersionOp n) w) = db w \<and> perform (IsTablePresentOp n) w = w"
  by (simp add: getTableVersion_db)


end
